theory Spec2Isabelle
  imports Main
begin

section \<open>Package httpux: HTTP over UDP client\<close>

text \<open>
  The model follows \<^verbatim>\<open>src/httpux/httpux.go\<close>. Everything the Go code obtains from
  the outside is made explicit:
  \<^item> what the socket returns to each \<^verbatim>\<open>ReadFrom\<close> and \<^verbatim>\<open>WriteTo\<close>, and which case
    each \<^verbatim>\<open>select\<close> takes, is a finite script of events; a loop that has used up its
    script stands at its next blocking call (\<open>Blocked\<close>);
  \<^item> the functions of Go's standard library the code calls (response parser, header
    writer, address resolution) are the fields of one record \<open>Lib\<close>;
  \<^item> Go's \<^verbatim>\<open>error\<close> interface value is \<open>error option\<close>, \<^verbatim>\<open>nil\<close> being \<open>None\<close>;
  \<^item> a panic is the outcome \<open>Panicked\<close>.
\<close>

subsection \<open>Data\<close>

type_synonym bytes = string

text \<open>\<^verbatim>\<open>time.Duration\<close>: nanoseconds.\<close>

type_synonym Duration = int

definition Millisecond :: Duration where
  "Millisecond = 1000000"

text \<open>
  The error values the code creates or passes on. \<open>NetError timeout temporary msg\<close> is
  a value implementing \<^verbatim>\<open>net.Error\<close> with the given answers of \<^verbatim>\<open>Timeout()\<close> and
  \<^verbatim>\<open>Temporary()\<close>. \<open>Canceled\<close> and \<open>DeadlineExceeded\<close> are the two errors of package
  \<^verbatim>\<open>context\<close>; Go's \<^verbatim>\<open>context.DeadlineExceeded\<close> has the methods of \<^verbatim>\<open>net.Error\<close>, both
  answering true.
\<close>

datatype error =
    NetError bool bool string
  | InvalidListeningAddress
  | ShortWrite nat nat
  | Canceled
  | DeadlineExceeded
  | OtherError string

text \<open>The type assertion \<^verbatim>\<open>err.(net.Error)\<close> and the two methods of the interface.\<close>

fun is_net_Error :: "error \<Rightarrow> bool" where
  "is_net_Error (NetError t tmp m) = True"
| "is_net_Error DeadlineExceeded = True"
| "is_net_Error e = False"

fun Timeout :: "error \<Rightarrow> bool" where
  "Timeout (NetError t tmp m) = t"
| "Timeout DeadlineExceeded = True"
| "Timeout e = False"

fun Temporary :: "error \<Rightarrow> bool" where
  "Temporary (NetError t tmp m) = tmp"
| "Temporary DeadlineExceeded = True"
| "Temporary e = False"

text \<open>\<^verbatim>\<open>http.Header\<close> is \<^verbatim>\<open>map[string][]string\<close>.\<close>

type_synonym header = "string \<rightharpoonup> string list"

record Request =
  Method :: string
  RequestURI :: string \<comment> \<open>the value of \<^verbatim>\<open>req.URL.RequestURI()\<close>\<close>
  Header :: header
  Host :: string

record Response =
  StatusCode :: int
  RespHeader :: header
  Body :: bytes

type_synonym IP = "nat list"

datatype Addr = UDPAddr IP nat | OtherAddr string

text \<open>
  A channel: the nil channel, or a made channel with its closed flag and the values
  sent into it that are not yet received.
\<close>

datatype 'a chan = NilChan | Chan bool "'a list"

text \<open>
  The socket (\<^verbatim>\<open>net.PacketConn\<close>): its bound address, whether it is closed, whether
  \<^verbatim>\<open>SetDeadline\<close> has moved its deadline into the past, and the calls of \<^verbatim>\<open>WriteTo\<close>
  made on it (payload and destination), oldest first.
\<close>

record PacketConn =
  LocalAddr :: Addr
  conn_closed :: bool
  deadline_past :: bool
  writes :: "(bytes \<times> Addr) list"

record HTTPUClient =
  connLock :: bool \<comment> \<open>the mutex is held\<close>
  conn :: PacketConn
  receiver :: "Response chan"

text \<open>
  What a run can change: the client, the lines given to \<^verbatim>\<open>log.Printf\<close> (the error
  each line reports) and the durations given to \<^verbatim>\<open>time.Sleep\<close>.
\<close>

record World =
  httpu :: HTTPUClient
  logged :: "error list"
  slept :: "Duration list"

datatype 'a outcome = Returned 'a | Blocked | Panicked string

text \<open>The standard-library functions the code calls.\<close>

record Lib =
  ReadResponse :: "bytes \<Rightarrow> Request \<Rightarrow> error + Response" \<comment> \<open>\<^verbatim>\<open>http.ReadResponse\<close>\<close>
  CanonicalMIMEHeaderKey :: "string \<Rightarrow> string"
  IP_String :: "IP \<Rightarrow> string" \<comment> \<open>\<^verbatim>\<open>net.IP.String\<close>\<close>
  Header_Write :: "header \<Rightarrow> error + bytes" \<comment> \<open>\<^verbatim>\<open>http.Header.Write\<close> into a buffer\<close>
  ResolveUDPAddr :: "string \<Rightarrow> string \<Rightarrow> error + Addr"
  ParseIP :: "string \<Rightarrow> IP option"
  ListenPacket :: "string \<Rightarrow> string \<Rightarrow> error + PacketConn"

definition LocalAddressHeader :: string where
  "LocalAddressHeader = ''goupnp-local-address''"

text \<open>\<^verbatim>\<open>Header.Add\<close>: append the value to the list stored under the canonical key.\<close>

definition Header_Add :: "Lib \<Rightarrow> header \<Rightarrow> string \<Rightarrow> string \<Rightarrow> header" where
  "Header_Add L h key v =
     (let k = CanonicalMIMEHeaderKey L key
      in h(k \<mapsto> (case h k of None \<Rightarrow> [] | Some vs \<Rightarrow> vs) @ [v]))"

subsection \<open>The response collector\<close>

text \<open>
  One event of the read script is what the socket has for the next \<^verbatim>\<open>ReadFrom\<close>: a
  datagram and the error the call reports. \<^verbatim>\<open>ReadFrom\<close> copies at most the capacity
  of the buffer and returns the number of bytes copied.
\<close>

type_synonym read_event = "bytes \<times> error option"

definition conn_ReadFrom :: "nat \<Rightarrow> read_event \<Rightarrow> nat \<times> bytes \<times> error option" where
  "conn_ReadFrom cap ev = (min (length (fst ev)) cap, take cap (fst ev), snd ev)"

fun startReceiveResponse ::
  "Lib \<Rightarrow> Request \<Rightarrow> read_event list \<Rightarrow> World \<Rightarrow> error option outcome \<times> World" where
  "startReceiveResponse L req [] w = (Blocked, w)"
| "startReceiveResponse L req (ev # evs) w =
     (case conn_ReadFrom 2048 ev of (n, responseBytes, rerr) \<Rightarrow>
        (case rerr of
           Some e \<Rightarrow>
             (if is_net_Error e then
                (if Timeout e then (Returned None, w)
                 else if Temporary e then
                   startReceiveResponse L req evs (w\<lparr>slept := slept w @ [10 * Millisecond]\<rparr>)
                 else (Returned (Some e), w))
              else (Returned (Some e), w))
         | None \<Rightarrow>
             (case ReadResponse L (take n responseBytes) req of
                Inl perr \<Rightarrow> startReceiveResponse L req evs (w\<lparr>logged := logged w @ [perr]\<rparr>)
              | Inr response \<Rightarrow>
                  (let response' =
                     (case LocalAddr (conn (httpu w)) of
                        UDPAddr ip port \<Rightarrow>
                          response\<lparr>RespHeader :=
                            Header_Add L (RespHeader response) LocalAddressHeader (IP_String L ip)\<rparr>
                      | OtherAddr a \<Rightarrow> response)
                   in startReceiveResponse L req evs w))))"

subsection \<open>The periodic transmitter\<close>

definition CRLF :: bytes where
  "CRLF = [CHR 0x0D, CHR 0x0A]"

definition upd_conn :: "(PacketConn \<Rightarrow> PacketConn) \<Rightarrow> World \<Rightarrow> World" where
  "upd_conn f w = w\<lparr>httpu := (httpu w)\<lparr>conn := f (conn (httpu w))\<rparr>\<rparr>"

definition conn_SetDeadline_past :: "PacketConn \<Rightarrow> PacketConn" where
  "conn_SetDeadline_past c = c\<lparr>deadline_past := True\<rparr>"

definition conn_WriteTo :: "bytes \<Rightarrow> Addr \<Rightarrow> PacketConn \<Rightarrow> PacketConn" where
  "conn_WriteTo b dest c = c\<lparr>writes := writes c @ [(b, dest)]\<rparr>"

text \<open>
  What one call of \<^verbatim>\<open>sendHTTPURequest\<close> meets: whether the request's context is done
  while the call runs (the watcher goroutine then moves the socket's deadline into the
  past), and the pair \<open>(n, err)\<close> that \<^verbatim>\<open>WriteTo\<close> returns.
\<close>

record send_env =
  ctx_fires :: bool
  write_result :: "nat \<times> error option"

text \<open>
  \<^verbatim>\<open>fmt.Fprintf\<close> and \<^verbatim>\<open>Write\<close> into a \<^verbatim>\<open>bytes.Buffer\<close> return a nil error, so the first
  and third error branches of the source are never taken; \<^verbatim>\<open>Header.Write\<close> keeps its
  error result.
\<close>

definition sendHTTPURequest :: "Lib \<Rightarrow> Request \<Rightarrow> send_env \<Rightarrow> World \<Rightarrow> error option \<times> World" where
  "sendHTTPURequest L req se w =
     (let method = (if Method req = [] then ''GET'' else Method req);
          requestLine = method @ '' '' @ RequestURI req @ '' HTTP/1.1'' @ CRLF
      in case Header_Write L (Header req) of
           Inl e \<Rightarrow> (Some e, w)
         | Inr hdr \<Rightarrow>
             (let requestBuf = requestLine @ hdr @ CRLF
              in case ResolveUDPAddr L ''udp'' (Host req) of
                   Inl e \<Rightarrow> (Some e, w)
                 | Inr destAddr \<Rightarrow>
                     (let w1 = (if ctx_fires se then upd_conn conn_SetDeadline_past w else w);
                          w2 = upd_conn (conn_WriteTo requestBuf destAddr) w1
                      in case write_result se of
                           (n, Some e) \<Rightarrow> (Some e, w2)
                         | (n, None) \<Rightarrow>
                             (if n < length requestBuf
                              then (Some (ShortWrite n (length requestBuf)), w2)
                              else (None, w2)))))"

text \<open>
  The request's context. Once \<^verbatim>\<open>ctx.Done()\<close> is closed, \<^verbatim>\<open>ctx.Err()\<close> is the reason:
  \<^verbatim>\<open>context.Canceled\<close> or \<^verbatim>\<open>context.DeadlineExceeded\<close>.
\<close>

datatype ctx_cause = CtxCanceled | CtxDeadline

fun ctx_Err :: "ctx_cause \<Rightarrow> error option" where
  "ctx_Err CtxCanceled = Some Canceled"
| "ctx_Err CtxDeadline = Some DeadlineExceeded"

text \<open>
  The case a \<^verbatim>\<open>select\<close> of the transmitter takes: a tick (with what the send then
  meets) or the context's done channel.
\<close>

datatype select_case = TickerC send_env | CtxDone ctx_cause

fun has_CtxDone :: "select_case list \<Rightarrow> bool" where
  "has_CtxDone [] = False"
| "has_CtxDone (TickerC se # evs) = has_CtxDone evs"
| "has_CtxDone (CtxDone c # evs) = True"

fun transmit_loop ::
  "Lib \<Rightarrow> Request \<Rightarrow> select_case list \<Rightarrow> World \<Rightarrow> error option outcome \<times> World" where
  "transmit_loop L req [] w = (Blocked, w)"
| "transmit_loop L req (TickerC se # evs) w =
     (case sendHTTPURequest L req se w of
        (Some e, w') \<Rightarrow> (Returned (Some e), w')
      | (None, w') \<Rightarrow> transmit_loop L req evs w')"
| "transmit_loop L req (CtxDone c # evs) w = (Returned (ctx_Err c), w)"

text \<open>\<^verbatim>\<open>time.NewTicker\<close> panics when the interval is not positive.\<close>

definition startLoopSendHTTPURequest ::
  "Lib \<Rightarrow> Request \<Rightarrow> Duration \<Rightarrow> select_case list \<Rightarrow> World \<Rightarrow> error option outcome \<times> World" where
  "startLoopSendHTTPURequest L req interval evs w =
     (if interval \<le> 0 then (Panicked ''non-positive interval for NewTicker'', w)
      else transmit_loop L req evs w)"

subsection \<open>Running both tasks\<close>

text \<open>
  \<^verbatim>\<open>errgroup.Group\<close> (zero value): a wait group counting the tasks started and not yet
  finished, and the first non-nil error a finished task returned (set once).
  \<^verbatim>\<open>Wait\<close> returns that error when no task is left, and blocks before.
\<close>

record Group =
  wg :: nat
  first_err :: "error option"

definition Group_Go :: "Group \<Rightarrow> Group" where
  "Group_Go g = g\<lparr>wg := wg g + 1\<rparr>"

definition Group_done :: "error option \<Rightarrow> Group \<Rightarrow> Group" where
  "Group_done r g =
     (let g' = (case r of
                  None \<Rightarrow> g
                | Some e \<Rightarrow> (case first_err g of None \<Rightarrow> g\<lparr>first_err := Some e\<rparr> | Some e0 \<Rightarrow> g))
      in g'\<lparr>wg := wg g' - 1\<rparr>)"

fun Group_finish :: "error option outcome \<Rightarrow> Group \<Rightarrow> Group" where
  "Group_finish (Returned r) g = Group_done r g"
| "Group_finish Blocked g = g"
| "Group_finish (Panicked m) g = g"

definition Group_Wait :: "Group \<Rightarrow> error option outcome" where
  "Group_Wait g = (if wg g = 0 then Returned (first_err g) else Blocked)"

fun is_Panicked :: "'a outcome \<Rightarrow> bool" where
  "is_Panicked (Panicked m) = True"
| "is_Panicked x = False"

text \<open>
  What one operation meets: the cases its transmitter's selects take, what the socket
  gives its collector, and which of the two tasks finishes first when both finish.
  The transmitter changes only the socket's deadline and write history, the collector
  only the log and the sleeps, so the order in which the model threads the world through
  them does not matter. A panic in a goroutine ends the program.
\<close>

record Env =
  selects :: "select_case list"
  reads :: "read_event list"
  sender_first :: bool

definition DoWithContext ::
  "Lib \<Rightarrow> Request \<Rightarrow> Duration \<Rightarrow> Env \<Rightarrow> World \<Rightarrow> error option outcome \<times> World" where
  "DoWithContext L req interval env w =
     (let tasks = \<lparr>wg = 0, first_err = None\<rparr>;
          tasks = Group_Go tasks;
          tasks = Group_Go tasks;
          (s, w1) = startLoopSendHTTPURequest L req interval (selects env) w;
          (r, w2) = startReceiveResponse L req (reads env) w1;
          tasks = fold Group_finish (if sender_first env then [s, r] else [r, s]) tasks
      in (if is_Panicked s then s else if is_Panicked r then r else Group_Wait tasks, w2))"

definition Do ::
  "Lib \<Rightarrow> Request \<Rightarrow> Duration \<Rightarrow> Env \<Rightarrow> World \<Rightarrow> error option outcome \<times> World" where
  "Do L req interval env w = DoWithContext L req interval env w"

subsection \<open>Constructors and Close\<close>

definition NewHTTPUClient :: "Lib \<Rightarrow> error + HTTPUClient" where
  "NewHTTPUClient L =
     (case ListenPacket L ''udp'' '':0'' of
        Inl e \<Rightarrow> Inl e
      | Inr c \<Rightarrow> Inr \<lparr>connLock = False, conn = c, receiver = Chan False []\<rparr>)"

definition NewHTTPUClientAddr :: "Lib \<Rightarrow> string \<Rightarrow> error + HTTPUClient" where
  "NewHTTPUClientAddr L addr =
     (case ParseIP L addr of
        None \<Rightarrow> Inl InvalidListeningAddress
      | Some ip \<Rightarrow>
          (case ListenPacket L ''udp'' (IP_String L ip @ '':0'') of
             Inl e \<Rightarrow> Inl e
           | Inr c \<Rightarrow> Inr \<lparr>connLock = False, conn = c, receiver = NilChan\<rparr>))"

text \<open>
  The builtin \<^verbatim>\<open>close\<close>: closing the nil channel or a closed channel panics.
\<close>

fun close_chan :: "'a chan \<Rightarrow> string + 'a chan" where
  "close_chan NilChan = Inl ''close of nil channel''"
| "close_chan (Chan True q) = Inl ''close of closed channel''"
| "close_chan (Chan False q) = Inr (Chan True q)"

text \<open>Closing the socket; closing it again reports an error.\<close>

definition conn_Close :: "PacketConn \<Rightarrow> error option \<times> PacketConn" where
  "conn_Close c =
     (if conn_closed c then (Some (NetError False False ''use of closed network connection''), c)
      else (None, c\<lparr>conn_closed := True\<rparr>))"

text \<open>
  \<^verbatim>\<open>Close\<close> takes the mutex (and blocks while another holder has it); the deferred
  unlock runs on return and on panic, so the mutex is free afterwards.
\<close>

definition Close :: "HTTPUClient \<Rightarrow> error option outcome \<times> HTTPUClient" where
  "Close h =
     (if connLock h then (Blocked, h)
      else (case close_chan (receiver h) of
              Inl m \<Rightarrow> (Panicked m, h)
            | Inr ch \<Rightarrow>
                (case conn_Close (conn h) of
                   (e, c) \<Rightarrow> (Returned e, h\<lparr>receiver := ch, conn := c\<rparr>))))"

subsection \<open>A concrete setting\<close>

text \<open>
  A client bound to 192.168.1.10, a search request for the SSDP multicast address, and
  small stand-ins for the library functions, used to run the definitions.
\<close>

definition example_conn :: PacketConn where
  "example_conn =
     \<lparr>LocalAddr = UDPAddr [192, 168, 1, 10] 50000, conn_closed = False,
      deadline_past = False, writes = []\<rparr>"

definition example_lib :: Lib where
  "example_lib =
     \<lparr>ReadResponse = (\<lambda>b req.
         if take 9 b = ''HTTP/1.1 ''
         then Inr \<lparr>StatusCode = 200, RespHeader = Map.empty, Body = []\<rparr>
         else Inl (OtherError ''malformed HTTP response'')),
      CanonicalMIMEHeaderKey = (\<lambda>k.
         if k = ''goupnp-local-address'' then ''Goupnp-Local-Address'' else k),
      IP_String = (\<lambda>ip. if ip = [192, 168, 1, 10] then ''192.168.1.10'' else ''0.0.0.0''),
      Header_Write = (\<lambda>h.
         Inr (case h ''St'' of None \<Rightarrow> [] | Some vs \<Rightarrow> concat (map (\<lambda>v. ''St: '' @ v @ CRLF) vs))),
      ResolveUDPAddr = (\<lambda>network host.
         if host = ''239.255.255.250:1900'' then Inr (UDPAddr [239, 255, 255, 250] 1900)
         else Inl (OtherError ''missing port in address'')),
      ParseIP = (\<lambda>s. if s = ''192.168.1.10'' then Some [192, 168, 1, 10] else None),
      ListenPacket = (\<lambda>network a. Inr example_conn)\<rparr>"

definition example_req :: Request where
  "example_req =
     \<lparr>Method = ''M-SEARCH'', RequestURI = ''*'',
      Header = [''St'' \<mapsto> [''ssdp:all'']], Host = ''239.255.255.250:1900''\<rparr>"

definition example_world :: World where
  "example_world =
     \<lparr>httpu = \<lparr>connLock = False, conn = example_conn, receiver = Chan False []\<rparr>,
      logged = [], slept = []\<rparr>"

definition example_send :: send_env where
  "example_send = \<lparr>ctx_fires = False, write_result = (37, None)\<rparr>"

definition io_timeout :: error where
  "io_timeout = NetError True False ''i/o timeout''"

subsection \<open>Notions of the specification\<close>

text \<open>
  The method on the wire: the request's method, \<^verbatim>\<open>GET\<close> when it is empty.
\<close>

definition spec_method :: "Request \<Rightarrow> string" where
  "spec_method req = (if Method req = [] then ''GET'' else Method req)"

text \<open>
  The wire format as the specification words it: request line, serialized header
  fields, terminating blank line, no body.
\<close>

definition spec_wire_format :: "string \<Rightarrow> string \<Rightarrow> bytes \<Rightarrow> bytes" where
  "spec_wire_format method target hdr =
     method @ '' '' @ target @ '' HTTP/1.1'' @ CRLF @ hdr @ CRLF"

text \<open>The first non-nil error of two, in the given order.\<close>

definition first_non_nil :: "error option \<Rightarrow> error option \<Rightarrow> error option" where
  "first_non_nil a b = (case a of Some e \<Rightarrow> Some e | None \<Rightarrow> b)"

text \<open>The datagrams handed to the socket, and the client's output queue.\<close>

definition sent :: "World \<Rightarrow> (bytes \<times> Addr) list" where
  "sent w = writes (conn (httpu w))"

definition delivered :: "World \<Rightarrow> Response chan" where
  "delivered w = receiver (httpu w)"

section \<open>Properties\<close>

lemmas example_defs =
  example_lib_def example_req_def example_world_def example_conn_def example_send_def
  io_timeout_def

subsection \<open>Steps of the collector\<close>

lemma startReceiveResponse_append:
  "startReceiveResponse L req (pre @ rest) w =
     (case startReceiveResponse L req pre w of
        (Blocked, w') \<Rightarrow> startReceiveResponse L req rest w'
      | (Returned r, w') \<Rightarrow> (Returned r, w')
      | (Panicked m, w') \<Rightarrow> (Panicked m, w'))"
  by (induction pre arbitrary: w)
     (auto simp: conn_ReadFrom_def Let_def split: option.splits sum.splits Addr.splits)

lemma startReceiveResponse_after_Blocked:
  "fst (startReceiveResponse L req pre w) = Blocked \<Longrightarrow>
   startReceiveResponse L req (pre @ rest) w =
     startReceiveResponse L req rest (snd (startReceiveResponse L req pre w))"
  by (cases "startReceiveResponse L req pre w") (simp add: startReceiveResponse_append)

lemma take_min_length: "take (min (length d) k) d = take k d"
  by (simp add: min_def)

lemma startReceiveResponse_step_timeout:
  "is_net_Error e \<Longrightarrow> Timeout e \<Longrightarrow>
   startReceiveResponse L req ((d, Some e) # rest) w = (Returned None, w)"
  by (simp add: conn_ReadFrom_def)

lemma startReceiveResponse_step_temporary:
  "is_net_Error e \<Longrightarrow> \<not> Timeout e \<Longrightarrow> Temporary e \<Longrightarrow>
   startReceiveResponse L req ((d, Some e) # rest) w =
     startReceiveResponse L req rest (w\<lparr>slept := slept w @ [10 * Millisecond]\<rparr>)"
  by (simp add: conn_ReadFrom_def)

lemma startReceiveResponse_step_parse_failure:
  "ReadResponse L (take 2048 d) req = Inl perr \<Longrightarrow>
   startReceiveResponse L req ((d, None) # rest) w =
     startReceiveResponse L req rest (w\<lparr>logged := logged w @ [perr]\<rparr>)"
  by (simp add: conn_ReadFrom_def take_min_length)

lemma startReceiveResponse_receiver:
  "receiver (httpu (snd (startReceiveResponse L req evs w))) = receiver (httpu w)"
  by (induction evs arbitrary: w)
     (auto simp: conn_ReadFrom_def Let_def split: option.splits sum.splits Addr.splits)

subsection \<open>Steps of the transmitter\<close>

lemma transmit_loop_append:
  "transmit_loop L req (pre @ rest) w =
     (case transmit_loop L req pre w of
        (Blocked, w') \<Rightarrow> transmit_loop L req rest w'
      | (Returned r, w') \<Rightarrow> (Returned r, w')
      | (Panicked m, w') \<Rightarrow> (Panicked m, w'))"
proof (induction pre arbitrary: w)
  case Nil
  show ?case by simp
next
  case (Cons ev pre)
  show ?case
  proof (cases ev)
    case (TickerC se)
    then show ?thesis using Cons.IH
      by (cases "sendHTTPURequest L req se w") (auto split: option.splits)
  next
    case (CtxDone c)
    then show ?thesis by simp
  qed
qed

lemma transmit_loop_after_Blocked:
  "fst (transmit_loop L req pre w) = Blocked \<Longrightarrow>
   transmit_loop L req (pre @ rest) w =
     transmit_loop L req rest (snd (transmit_loop L req pre w))"
  by (cases "transmit_loop L req pre w") (simp add: transmit_loop_append)

lemma ctx_Err_not_nil: "ctx_Err c \<noteq> None"
  by (cases c) simp_all

lemma transmit_loop_CtxDone:
  "fst (transmit_loop L req pre w) = Blocked \<Longrightarrow>
   fst (transmit_loop L req (pre @ CtxDone c # rest) w) = Returned (ctx_Err c)"
  by (simp add: transmit_loop_after_Blocked)

lemma transmit_loop_no_CtxDone:
  "\<not> has_CtxDone evs \<Longrightarrow> fst (transmit_loop L req evs w) = Returned x \<Longrightarrow>
   x \<noteq> None \<and> (\<exists>se w'. TickerC se \<in> set evs \<and> fst (sendHTTPURequest L req se w') \<noteq> None)"
proof (induction evs arbitrary: w)
  case Nil
  then show ?case by simp
next
  case (Cons ev evs)
  show ?case
  proof (cases ev)
    case (TickerC se)
    show ?thesis
    proof (cases "fst (sendHTTPURequest L req se w)")
      case None
      then have "transmit_loop L req (ev # evs) w =
                   transmit_loop L req evs (snd (sendHTTPURequest L req se w))"
        using TickerC by (cases "sendHTTPURequest L req se w") simp
      with Cons TickerC show ?thesis by fastforce
    next
      case (Some e)
      then have "fst (transmit_loop L req (ev # evs) w) = Returned (Some e)"
        using TickerC by (cases "sendHTTPURequest L req se w") simp
      with Cons.prems(2) have "x = Some e" by simp
      moreover have "TickerC se \<in> set (ev # evs)" using TickerC by simp
      ultimately show ?thesis using Some by fastforce
    qed
  next
    case (CtxDone c)
    with Cons.prems show ?thesis by simp
  qed
qed

lemma sendHTTPURequest_error_any_world:
  "fst (sendHTTPURequest L req se w) = fst (sendHTTPURequest L req se w')"
  by (simp add: sendHTTPURequest_def Let_def split: sum.splits prod.splits option.splits)

subsection \<open>The collector and read timeouts\<close>

text \<open>
  Claim C4. Whenever the collector is reading (it has not returned on the events so
  far) and the read reports an error that is a \<^verbatim>\<open>net.Error\<close> with \<^verbatim>\<open>Timeout()\<close> true,
  the collector stops there and returns nil, whatever the socket would have given
  afterwards; the world is the one it had reached.
\<close>

theorem collector_timeout_returns_nil:
  assumes "fst (startReceiveResponse L req pre w) = Blocked"
    and "is_net_Error e" and "Timeout e"
  shows "startReceiveResponse L req (pre @ (d, Some e) # rest) w =
           (Returned None, snd (startReceiveResponse L req pre w))"
proof -
  have "startReceiveResponse L req (pre @ (d, Some e) # rest) w =
          startReceiveResponse L req ((d, Some e) # rest) (snd (startReceiveResponse L req pre w))"
    using assms(1) by (rule startReceiveResponse_after_Blocked)
  also have "\<dots> = (Returned None, snd (startReceiveResponse L req pre w))"
    using assms(2,3) by (rule startReceiveResponse_step_timeout)
  finally show ?thesis .
qed

theorem collector_timeout_returns_nil_witness:
  "fst (startReceiveResponse example_lib example_req [(''noise'', None)] example_world) = Blocked
   \<and> is_net_Error io_timeout \<and> Timeout io_timeout
   \<and> startReceiveResponse example_lib example_req
        ([(''noise'', None)] @ ([], Some io_timeout) # [(''HTTP/1.1 200 OK'', None)])
        example_world =
      (Returned None,
       snd (startReceiveResponse example_lib example_req [(''noise'', None)] example_world))"
proof -
  have b: "fst (startReceiveResponse example_lib example_req [(''noise'', None)] example_world)
             = Blocked"
    by (simp add: example_defs conn_ReadFrom_def)
  have n: "is_net_Error io_timeout" and t: "Timeout io_timeout"
    by (simp_all add: io_timeout_def)
  show ?thesis
    using b n t collector_timeout_returns_nil [OF b n t, of "[]" "[(''HTTP/1.1 200 OK'', None)]"]
    by simp
qed

subsection \<open>The collector and temporary read errors\<close>

text \<open>
  Claim C7. Whenever the collector is reading and the read reports an error that is a
  \<^verbatim>\<open>net.Error\<close> with \<^verbatim>\<open>Timeout()\<close> false and \<^verbatim>\<open>Temporary()\<close> true, the collector sleeps
  10 ms (one more entry of 10 ms in the sleeps, nothing else changed) and goes on with
  the next read exactly as it would have without the error; right after the error it
  has not returned: it is reading again.
\<close>

theorem collector_temporary_error_retried:
  assumes "fst (startReceiveResponse L req pre w) = Blocked"
    and "is_net_Error e" and "\<not> Timeout e" and "Temporary e"
  shows "startReceiveResponse L req (pre @ (d, Some e) # rest) w =
           startReceiveResponse L req rest
             ((snd (startReceiveResponse L req pre w))
                \<lparr>slept := slept (snd (startReceiveResponse L req pre w)) @ [10 * Millisecond]\<rparr>)
         \<and> startReceiveResponse L req (pre @ [(d, Some e)]) w =
             (Blocked,
              (snd (startReceiveResponse L req pre w))
                \<lparr>slept := slept (snd (startReceiveResponse L req pre w)) @ [10 * Millisecond]\<rparr>)"
proof -
  let ?w = "snd (startReceiveResponse L req pre w)"
  have step: "startReceiveResponse L req (pre @ (d, Some e) # r) w =
                startReceiveResponse L req r (?w\<lparr>slept := slept ?w @ [10 * Millisecond]\<rparr>)"
    for r
  proof -
    have "startReceiveResponse L req (pre @ (d, Some e) # r) w =
            startReceiveResponse L req ((d, Some e) # r) ?w"
      using assms(1) by (rule startReceiveResponse_after_Blocked)
    also have "\<dots> = startReceiveResponse L req r (?w\<lparr>slept := slept ?w @ [10 * Millisecond]\<rparr>)"
      using assms(2,3,4) by (rule startReceiveResponse_step_temporary)
    finally show ?thesis .
  qed
  from step [of rest] step [of "[]"] show ?thesis by simp
qed

theorem collector_temporary_error_retried_witness:
  "fst (startReceiveResponse example_lib example_req [(''noise'', None)] example_world) = Blocked
   \<and> is_net_Error (NetError False True ''try again'')
   \<and> \<not> Timeout (NetError False True ''try again'')
   \<and> Temporary (NetError False True ''try again'')
   \<and> startReceiveResponse example_lib example_req
        ([(''noise'', None)] @ ([], Some (NetError False True ''try again'')) # [([], Some io_timeout)])
        example_world =
      (Returned None,
       example_world\<lparr>logged := [OtherError ''malformed HTTP response''],
                      slept := [10 * Millisecond]\<rparr>)
   \<and> startReceiveResponse example_lib example_req
        ([(''noise'', None)] @ [([], Some (NetError False True ''try again''))]) example_world =
      (Blocked,
       example_world\<lparr>logged := [OtherError ''malformed HTTP response''],
                      slept := [10 * Millisecond]\<rparr>)"
proof -
  have b: "fst (startReceiveResponse example_lib example_req [(''noise'', None)] example_world)
             = Blocked"
    by (simp add: example_defs conn_ReadFrom_def)
  have n: "is_net_Error (NetError False True ''try again'')"
    and t: "\<not> Timeout (NetError False True ''try again'')"
    and p: "Temporary (NetError False True ''try again'')"
    by simp_all
  show ?thesis
    using b n t p
      collector_temporary_error_retried [OF b n t p, of "[]" "[([], Some io_timeout)]"]
    by (simp add: example_defs conn_ReadFrom_def)
qed

subsection \<open>The collector and datagrams that do not parse\<close>

text \<open>
  Claim C6. Whenever the collector is reading and receives a datagram that
  \<^verbatim>\<open>http.ReadResponse\<close> rejects, it logs the parse error (one more line in the log,
  nothing else changed) and goes on with the next read exactly as it would have without
  the datagram; right after the datagram it has not returned: it is reading again. And
  after any number of datagrams that all fail to parse it is still reading.
\<close>

theorem collector_parse_failure_discarded:
  assumes "fst (startReceiveResponse L req pre w) = Blocked"
    and "ReadResponse L (take 2048 d) req = Inl perr"
    and "\<forall>ev \<in> set noise. snd ev = None \<and> isl (ReadResponse L (take 2048 (fst ev)) req)"
  shows "startReceiveResponse L req (pre @ (d, None) # rest) w =
           startReceiveResponse L req rest
             ((snd (startReceiveResponse L req pre w))
                \<lparr>logged := logged (snd (startReceiveResponse L req pre w)) @ [perr]\<rparr>)
         \<and> startReceiveResponse L req (pre @ [(d, None)]) w =
             (Blocked,
              (snd (startReceiveResponse L req pre w))
                \<lparr>logged := logged (snd (startReceiveResponse L req pre w)) @ [perr]\<rparr>)
         \<and> fst (startReceiveResponse L req (pre @ noise) w) = Blocked"
proof -
  let ?w = "snd (startReceiveResponse L req pre w)"
  have step: "startReceiveResponse L req (pre @ (d, None) # r) w =
                startReceiveResponse L req r (?w\<lparr>logged := logged ?w @ [perr]\<rparr>)" for r
  proof -
    have "startReceiveResponse L req (pre @ (d, None) # r) w =
            startReceiveResponse L req ((d, None) # r) ?w"
      using assms(1) by (rule startReceiveResponse_after_Blocked)
    also have "\<dots> = startReceiveResponse L req r (?w\<lparr>logged := logged ?w @ [perr]\<rparr>)"
      using assms(2) by (rule startReceiveResponse_step_parse_failure)
    finally show ?thesis .
  qed
  have noise: "fst (startReceiveResponse L req noise v) = Blocked" for v
    using assms(3)
  proof (induction noise arbitrary: v)
    case Nil
    show ?case by simp
  next
    case (Cons ev noise)
    obtain dg where ev: "ev = (dg, None)"
      using Cons.prems by (cases ev) auto
    obtain pe where pe: "ReadResponse L (take 2048 dg) req = Inl pe"
      using Cons.prems ev by (cases "ReadResponse L (take 2048 dg) req") auto
    have "startReceiveResponse L req (ev # noise) v =
            startReceiveResponse L req noise (v\<lparr>logged := logged v @ [pe]\<rparr>)"
      unfolding ev using pe by (rule startReceiveResponse_step_parse_failure)
    then show ?case using Cons by simp
  qed
  have "fst (startReceiveResponse L req (pre @ noise) w) = Blocked"
    using startReceiveResponse_after_Blocked [OF assms(1), of noise] noise by simp
  with step [of rest] step [of "[]"] show ?thesis by simp
qed

theorem collector_parse_failure_discarded_witness:
  "fst (startReceiveResponse example_lib example_req
          [([], Some (NetError False True ''try again''))] example_world) = Blocked
   \<and> ReadResponse example_lib (take 2048 ''noise'') example_req =
       Inl (OtherError ''malformed HTTP response'')
   \<and> isl (ReadResponse example_lib (take 2048 ''HTTP/1.0'') example_req)
   \<and> isl (ReadResponse example_lib (take 2048 ''NOTIFY * HTTP'') example_req)
   \<and> startReceiveResponse example_lib example_req
        ([([], Some (NetError False True ''try again''))] @ (''noise'', None) #
           [([], Some (OtherError ''closed''))]) example_world =
      (Returned (Some (OtherError ''closed'')),
       example_world\<lparr>logged := [OtherError ''malformed HTTP response''],
                      slept := [10 * Millisecond]\<rparr>)
   \<and> startReceiveResponse example_lib example_req
        ([([], Some (NetError False True ''try again''))] @ [(''noise'', None)]) example_world =
      (Blocked,
       example_world\<lparr>logged := [OtherError ''malformed HTTP response''],
                      slept := [10 * Millisecond]\<rparr>)
   \<and> fst (startReceiveResponse example_lib example_req
        ([([], Some (NetError False True ''try again''))] @
           [(''HTTP/1.0'', None), (''NOTIFY * HTTP'', None)]) example_world) = Blocked"
proof -
  have b: "fst (startReceiveResponse example_lib example_req
                  [([], Some (NetError False True ''try again''))] example_world) = Blocked"
    by (simp add: example_defs conn_ReadFrom_def)
  have f: "ReadResponse example_lib (take 2048 ''noise'') example_req =
             Inl (OtherError ''malformed HTTP response'')"
    by (simp add: example_defs)
  have a: "\<forall>ev \<in> set [(''HTTP/1.0'', None), (''NOTIFY * HTTP'', None)].
             snd ev = None \<and> isl (ReadResponse example_lib (take 2048 (fst ev)) example_req)"
    by (simp add: example_defs)
  show ?thesis
    using b f a
      collector_parse_failure_discarded [OF b f a, of "[([], Some (OtherError ''closed''))]"]
    by (simp add: example_defs conn_ReadFrom_def)
qed

subsection \<open>The two tasks do not interfere\<close>

text \<open>
  The collector's outcome does not depend on the world it starts in, the transmitter
  leaves the log and the sleeps alone, and the collector leaves the socket alone.
\<close>

lemma startReceiveResponse_outcome_any_world:
  "fst (startReceiveResponse L req evs w) = fst (startReceiveResponse L req evs w')"
  by (induction evs arbitrary: w w')
     (auto simp: conn_ReadFrom_def Let_def split: option.splits sum.splits Addr.splits)

lemma transmit_loop_slept_logged:
  "logged (snd (transmit_loop L req evs w)) = logged w \<and>
   slept (snd (transmit_loop L req evs w)) = slept w"
proof (induction evs arbitrary: w)
  case Nil
  show ?case by simp
next
  case (Cons ev evs)
  have send: "logged (snd (sendHTTPURequest L req se v)) = logged v \<and>
              slept (snd (sendHTTPURequest L req se v)) = slept v" for se v
    by (simp add: sendHTTPURequest_def Let_def upd_conn_def
        split: sum.splits prod.splits option.splits)
  show ?case
  proof (cases ev)
    case (TickerC se)
    then show ?thesis using Cons.IH [of "snd (sendHTTPURequest L req se w)"] send [of se w]
      by (cases "sendHTTPURequest L req se w") (auto split: option.splits)
  next
    case (CtxDone c)
    then show ?thesis by simp
  qed
qed

lemma startReceiveResponse_conn:
  "conn (httpu (snd (startReceiveResponse L req evs w))) = conn (httpu w)"
  by (induction evs arbitrary: w)
     (auto simp: conn_ReadFrom_def Let_def split: option.splits sum.splits Addr.splits)

subsection \<open>Joining the two tasks\<close>

lemma Group_join:
  "Group_Wait (fold Group_finish [Returned a, Returned b]
     (Group_Go (Group_Go \<lparr>wg = 0, first_err = None\<rparr>))) = Returned (first_non_nil a b)"
  by (cases a; cases b)
     (simp_all add: Group_Wait_def Group_Go_def Group_done_def first_non_nil_def)

lemma Group_one_left:
  "Group_Wait (fold Group_finish [Returned a, Blocked]
     (Group_Go (Group_Go \<lparr>wg = 0, first_err = None\<rparr>))) = Blocked"
  "Group_Wait (fold Group_finish [Blocked, Returned a]
     (Group_Go (Group_Go \<lparr>wg = 0, first_err = None\<rparr>))) = Blocked"
  "Group_Wait (fold Group_finish [Blocked, Blocked]
     (Group_Go (Group_Go \<lparr>wg = 0, first_err = None\<rparr>))) = Blocked"
  by (cases a; simp add: Group_Wait_def Group_Go_def Group_done_def)+

lemma startReceiveResponse_not_Panicked:
  "fst (startReceiveResponse L req evs w) \<noteq> Panicked m"
  by (induction evs arbitrary: w)
     (auto simp: conn_ReadFrom_def Let_def split: option.splits sum.splits Addr.splits)

lemma DoWithContext_both_Returned:
  assumes "fst (startLoopSendHTTPURequest L req interval (selects env) w) = Returned a"
    and "fst (startReceiveResponse L req (reads env)
           (snd (startLoopSendHTTPURequest L req interval (selects env) w))) = Returned b"
  shows "fst (DoWithContext L req interval env w) =
           Returned (if sender_first env then first_non_nil a b else first_non_nil b a)"
proof -
  obtain w1 where s: "startLoopSendHTTPURequest L req interval (selects env) w = (Returned a, w1)"
    using assms(1) by (cases "startLoopSendHTTPURequest L req interval (selects env) w") simp
  obtain w2 where r: "startReceiveResponse L req (reads env) w1 = (Returned b, w2)"
    using assms(2) s by (cases "startReceiveResponse L req (reads env) w1") simp
  show ?thesis
    using Group_join [of a b] Group_join [of b a]
    by (simp add: DoWithContext_def s r del: fold_simps)
qed

lemma DoWithContext_Returned_only_if:
  assumes "fst (DoWithContext L req interval env w) = Returned x"
  shows "\<exists>a b. fst (startLoopSendHTTPURequest L req interval (selects env) w) = Returned a \<and>
           fst (startReceiveResponse L req (reads env)
             (snd (startLoopSendHTTPURequest L req interval (selects env) w))) = Returned b"
proof -
  obtain s w1 where s: "startLoopSendHTTPURequest L req interval (selects env) w = (s, w1)"
    by (cases "startLoopSendHTTPURequest L req interval (selects env) w")
  obtain r w2 where r: "startReceiveResponse L req (reads env) w1 = (r, w2)"
    by (cases "startReceiveResponse L req (reads env) w1")
  have "\<exists>a. s = Returned a" and "\<exists>b. r = Returned b"
    using assms Group_one_left
    by (cases s; cases r; simp add: DoWithContext_def s r del: fold_simps split: if_splits)+
  then show ?thesis using s r by simp
qed

subsection \<open>One send\<close>

lemma sendHTTPURequest_encoded:
  assumes "Header_Write L (Header req) = Inr hdr"
    and "ResolveUDPAddr L ''udp'' (Host req) = Inr dest"
  shows "sent (snd (sendHTTPURequest L req se w)) =
           sent w @ [(spec_wire_format (spec_method req) (RequestURI req) hdr, dest)]"
  using assms
  by (simp add: sendHTTPURequest_def Let_def spec_method_def spec_wire_format_def sent_def
      upd_conn_def conn_WriteTo_def conn_SetDeadline_past_def split: prod.splits option.splits)

lemma sendHTTPURequest_short_write:
  assumes "Header_Write L (Header req) = Inr hdr"
    and "ResolveUDPAddr L ''udp'' (Host req) = Inr dest"
    and "write_result se = (n, r)"
    and "n < length (spec_wire_format (spec_method req) (RequestURI req) hdr)"
  shows "fst (sendHTTPURequest L req se w) =
           Some (case r of
                   Some e \<Rightarrow> e
                 | None \<Rightarrow> ShortWrite n
                     (length (spec_wire_format (spec_method req) (RequestURI req) hdr)))"
  using assms
  by (cases r) (simp_all add: sendHTTPURequest_def Let_def spec_method_def spec_wire_format_def)

lemma sendHTTPURequest_not_sent:
  assumes "isl (Header_Write L (Header req)) \<or> isl (ResolveUDPAddr L ''udp'' (Host req))"
  shows "sendHTTPURequest L req se w =
           (case Header_Write L (Header req) of
              Inl e \<Rightarrow> Some e
            | Inr hdr \<Rightarrow> (case ResolveUDPAddr L ''udp'' (Host req) of Inl e \<Rightarrow> Some e | Inr a \<Rightarrow> None),
            w)"
  using assms
  by (auto simp: sendHTTPURequest_def Let_def split: sum.splits)

text \<open>
  Claim C9. For every request that is sent (its header fields serialize and its host
  resolves), one call of \<^verbatim>\<open>sendHTTPURequest\<close> hands the socket exactly one datagram:
  the method, a space, the request target, \<^verbatim>\<open> HTTP/1.1\<close>, CR LF, the serialized header
  fields, CR LF, and nothing after; the method is the request's, or \<^verbatim>\<open>GET\<close> when the
  request's method is the empty string.
\<close>

theorem sendHTTPURequest_wire_format:
  assumes "Header_Write L (Header req) = Inr hdr"
    and "ResolveUDPAddr L ''udp'' (Host req) = Inr dest"
  shows "sent (snd (sendHTTPURequest L req se w)) =
           sent w @
             [((if Method req = [] then ''GET'' else Method req) @ '' '' @ RequestURI req @
                 '' HTTP/1.1'' @ [CHR 0x0D, CHR 0x0A] @ hdr @ [CHR 0x0D, CHR 0x0A], dest)]"
  using sendHTTPURequest_encoded [OF assms, of se w]
  by (simp add: spec_method_def spec_wire_format_def CRLF_def)

theorem sendHTTPURequest_wire_format_witness:
  "Header_Write example_lib (Header example_req) = Inr (''St: ssdp:all'' @ [CHR 0x0D, CHR 0x0A])
   \<and> ResolveUDPAddr example_lib ''udp'' (Host example_req) =
       Inr (UDPAddr [239, 255, 255, 250] 1900)
   \<and> sent (snd (sendHTTPURequest example_lib (example_req\<lparr>Method := []\<rparr>) example_send
                  example_world)) =
       [(''GET * HTTP/1.1'' @ [CHR 0x0D, CHR 0x0A] @ ''St: ssdp:all'' @
           [CHR 0x0D, CHR 0x0A, CHR 0x0D, CHR 0x0A],
         UDPAddr [239, 255, 255, 250] 1900)]"
proof -
  have h: "Header_Write example_lib (Header (example_req\<lparr>Method := []\<rparr>)) =
             Inr (''St: ssdp:all'' @ [CHR 0x0D, CHR 0x0A])"
    by (simp add: example_defs CRLF_def)
  have r: "ResolveUDPAddr example_lib ''udp'' (Host (example_req\<lparr>Method := []\<rparr>)) =
             Inr (UDPAddr [239, 255, 255, 250] 1900)"
    by (simp add: example_defs)
  show ?thesis
    using h r sendHTTPURequest_wire_format [OF h r, of example_send example_world]
    by (simp add: example_defs sent_def)
qed

subsection \<open>Short writes\<close>

text \<open>
  Once the transmitter has returned, the operation is what the collector makes of it:
  blocked while the collector reads, and the first non-nil error in finishing order
  when the collector has returned.
\<close>

lemma DoWithContext_sender_Returned:
  assumes "fst (startLoopSendHTTPURequest L req interval (selects env) w) = Returned a"
  shows "fst (DoWithContext L req interval env w) =
           (case fst (startReceiveResponse L req (reads env) w) of
              Returned c \<Rightarrow>
                Returned (if sender_first env then first_non_nil a c else first_non_nil c a)
            | Blocked \<Rightarrow> Blocked
            | Panicked m \<Rightarrow> Panicked m)"
proof -
  obtain w1 where s: "startLoopSendHTTPURequest L req interval (selects env) w = (Returned a, w1)"
    using assms by (cases "startLoopSendHTTPURequest L req interval (selects env) w") simp
  obtain r w2 where r: "startReceiveResponse L req (reads env) w1 = (r, w2)"
    by (cases "startReceiveResponse L req (reads env) w1")
  have same: "fst (startReceiveResponse L req (reads env) w) = r"
    using startReceiveResponse_outcome_any_world [of L req "reads env" w w1] r by simp
  show ?thesis
  proof (cases r)
    case (Returned c)
    then show ?thesis
      using Group_join [of a c] Group_join [of c a]
      by (simp add: DoWithContext_def s r same del: fold_simps)
  next
    case Blocked
    then show ?thesis
      using Group_one_left
      by (simp add: DoWithContext_def s r same del: fold_simps)
  next
    case (Panicked m)
    then show ?thesis
      by (simp add: DoWithContext_def s r same del: fold_simps)
  qed
qed

text \<open>
  Claim C5, as the code has it. When the socket write of a send reports fewer bytes
  than the encoded request has, \<^verbatim>\<open>sendHTTPURequest\<close> returns a non-nil error: the
  write's own error if it reported one, the short-write error (naming both counts)
  otherwise. In the transmitter loop, at whatever tick this happens, the loop returns
  that error, and the datagrams handed to the socket are those up to and including this
  one, whatever ticks would have followed: no further send occurs. The operation does
  not end with the transmitter: while the collector is still reading, \<^verbatim>\<open>DoWithContext\<close>
  has not returned; once the collector has returned, it returns a non-nil error, which
  is this error unless the collector finished first with an error of its own.
\<close>

theorem short_write_ends_transmitter:
  assumes "Header_Write L (Header req) = Inr hdr"
    and "ResolveUDPAddr L ''udp'' (Host req) = Inr dest"
    and "write_result se = (n, r)"
    and "n < length (spec_wire_format (spec_method req) (RequestURI req) hdr)"
    and "0 < interval"
    and "fst (startLoopSendHTTPURequest L req interval pre w) = Blocked"
  shows "fst (sendHTTPURequest L req se w0) =
           Some (case r of
                   Some e \<Rightarrow> e
                 | None \<Rightarrow> ShortWrite n
                     (length (spec_wire_format (spec_method req) (RequestURI req) hdr)))
         \<and> fst (startLoopSendHTTPURequest L req interval (pre @ TickerC se # rest) w) =
             Returned (Some (case r of
                   Some e \<Rightarrow> e
                 | None \<Rightarrow> ShortWrite n
                     (length (spec_wire_format (spec_method req) (RequestURI req) hdr))))
         \<and> sent (snd (startLoopSendHTTPURequest L req interval (pre @ TickerC se # rest) w)) =
             sent (snd (startLoopSendHTTPURequest L req interval pre w)) @
               [(spec_wire_format (spec_method req) (RequestURI req) hdr, dest)]
         \<and> fst (DoWithContext L req interval
                  \<lparr>selects = pre @ TickerC se # rest, reads = rs, sender_first = b\<rparr> w) =
             (case fst (startReceiveResponse L req rs w) of
                Returned c \<Rightarrow>
                  Returned (Some (if b then
                    (case r of
                       Some e \<Rightarrow> e
                     | None \<Rightarrow> ShortWrite n
                         (length (spec_wire_format (spec_method req) (RequestURI req) hdr)))
                    else (case c of
                       Some e' \<Rightarrow> e'
                     | None \<Rightarrow>
                        (case r of
                           Some e \<Rightarrow> e
                         | None \<Rightarrow> ShortWrite n
                             (length (spec_wire_format (spec_method req) (RequestURI req) hdr))))))
              | Blocked \<Rightarrow> Blocked
              | Panicked m \<Rightarrow> Panicked m)"
proof -
  let ?e = "case r of
              Some e \<Rightarrow> e
            | None \<Rightarrow> ShortWrite n
                (length (spec_wire_format (spec_method req) (RequestURI req) hdr))"
  let ?w = "snd (transmit_loop L req pre w)"
  let ?env = "\<lparr>selects = pre @ TickerC se # rest, reads = rs, sender_first = b\<rparr>"
  have send: "fst (sendHTTPURequest L req se v) = Some ?e" for v
    using assms(1-4) by (rule sendHTTPURequest_short_write)
  have blocked: "fst (transmit_loop L req pre w) = Blocked"
    using assms(5,6) by (simp add: startLoopSendHTTPURequest_def)
  have "transmit_loop L req (pre @ TickerC se # rest) w =
          transmit_loop L req (TickerC se # rest) ?w"
    using blocked by (rule transmit_loop_after_Blocked)
  also have "\<dots> = (Returned (Some ?e), snd (sendHTTPURequest L req se ?w))"
    using send [of ?w] by (cases "sendHTTPURequest L req se ?w") simp
  finally have loop: "startLoopSendHTTPURequest L req interval (pre @ TickerC se # rest) w =
                        (Returned (Some ?e), snd (sendHTTPURequest L req se ?w))"
    using assms(5) by (simp add: startLoopSendHTTPURequest_def)
  have pre: "startLoopSendHTTPURequest L req interval pre w = transmit_loop L req pre w"
    using assms(5) by (simp add: startLoopSendHTTPURequest_def)
  have sent: "sent (snd (sendHTTPURequest L req se ?w)) =
                sent ?w @ [(spec_wire_format (spec_method req) (RequestURI req) hdr, dest)]"
    using assms(1,2) by (rule sendHTTPURequest_encoded)
  have "fst (startLoopSendHTTPURequest L req interval (selects ?env) w) = Returned (Some ?e)"
    using loop by simp
  from DoWithContext_sender_Returned [OF this]
  have op: "fst (DoWithContext L req interval ?env w) =
      (case fst (startReceiveResponse L req rs w) of
         Returned c \<Rightarrow> Returned (Some (if b then ?e else (case c of Some e' \<Rightarrow> e' | None \<Rightarrow> ?e)))
       | Blocked \<Rightarrow> Blocked
       | Panicked m \<Rightarrow> Panicked m)"
    by (simp add: first_non_nil_def split: outcome.splits option.splits)
  show ?thesis using send [of w0] loop pre sent op by simp
qed

theorem short_write_ends_transmitter_witness:
  "Header_Write example_lib (Header example_req) = Inr (''St: ssdp:all'' @ CRLF)
   \<and> ResolveUDPAddr example_lib ''udp'' (Host example_req) =
       Inr (UDPAddr [239, 255, 255, 250] 1900)
   \<and> write_result (example_send\<lparr>write_result := (20, None)\<rparr>) = (20, None)
   \<and> (20::nat) < 37
   \<and> (0::int) < 1000 * Millisecond
   \<and> fst (startLoopSendHTTPURequest example_lib example_req (1000 * Millisecond)
            [TickerC example_send] example_world) = Blocked
   \<and> fst (sendHTTPURequest example_lib example_req (example_send\<lparr>write_result := (20, None)\<rparr>)
            example_world) = Some (ShortWrite 20 37)
   \<and> fst (startLoopSendHTTPURequest example_lib example_req (1000 * Millisecond)
            ([TickerC example_send] @ TickerC (example_send\<lparr>write_result := (20, None)\<rparr>) #
               [TickerC example_send]) example_world) = Returned (Some (ShortWrite 20 37))
   \<and> length (sent (snd (startLoopSendHTTPURequest example_lib example_req (1000 * Millisecond)
            ([TickerC example_send] @ TickerC (example_send\<lparr>write_result := (20, None)\<rparr>) #
               [TickerC example_send]) example_world))) = 2
   \<and> fst (startReceiveResponse example_lib example_req [([], Some io_timeout)] example_world) =
       Returned None
   \<and> fst (DoWithContext example_lib example_req (1000 * Millisecond)
            \<lparr>selects = [TickerC example_send] @
               TickerC (example_send\<lparr>write_result := (20, None)\<rparr>) # [TickerC example_send],
             reads = [([], Some io_timeout)], sender_first = False\<rparr> example_world) =
       Returned (Some (ShortWrite 20 37))"
proof -
  let ?se = "example_send\<lparr>write_result := (20, None)\<rparr>"
  define hdr where "hdr = ''St: ssdp:all'' @ CRLF"
  have h: "Header_Write example_lib (Header example_req) = Inr hdr"
    by (simp add: example_defs hdr_def)
  have r: "ResolveUDPAddr example_lib ''udp'' (Host example_req) =
             Inr (UDPAddr [239, 255, 255, 250] 1900)"
    by (simp add: example_defs)
  have wr: "write_result ?se = (20, None)" by simp
  have len: "length (spec_wire_format (spec_method example_req) (RequestURI example_req) hdr) = 37"
    by (simp add: example_defs spec_wire_format_def spec_method_def CRLF_def hdr_def)
  have n: "20 < length (spec_wire_format (spec_method example_req) (RequestURI example_req) hdr)"
    unfolding len by simp
  have i: "(0::int) < 1000 * Millisecond" by (simp add: Millisecond_def)
  have b: "fst (startLoopSendHTTPURequest example_lib example_req (1000 * Millisecond)
                  [TickerC example_send] example_world) = Blocked"
    by (simp add: startLoopSendHTTPURequest_def Millisecond_def sendHTTPURequest_def Let_def
        example_defs CRLF_def)
  have s1: "length (sent (snd (startLoopSendHTTPURequest example_lib example_req
              (1000 * Millisecond) [TickerC example_send] example_world))) = 1"
    by (simp add: startLoopSendHTTPURequest_def Millisecond_def sendHTTPURequest_def Let_def
        example_defs CRLF_def sent_def upd_conn_def conn_WriteTo_def)
  have col: "fst (startReceiveResponse example_lib example_req [([], Some io_timeout)]
               example_world) = Returned None"
    by (simp add: io_timeout_def conn_ReadFrom_def)
  note ends = short_write_ends_transmitter [OF h r wr n i b, of example_world
        "[TickerC example_send]" "[([], Some io_timeout)]" False,
        unfolded len col option.case outcome.case if_False]
  from ends have c1: "fst (sendHTTPURequest example_lib example_req ?se example_world) =
      Some (ShortWrite 20 37)"
    by (rule conjunct1)
  from ends have c2: "fst (startLoopSendHTTPURequest example_lib example_req (1000 * Millisecond)
      ([TickerC example_send] @ TickerC ?se # [TickerC example_send]) example_world) =
      Returned (Some (ShortWrite 20 37))"
    by (rule conjunct2 [THEN conjunct1])
  from ends have "sent (snd (startLoopSendHTTPURequest example_lib example_req
      (1000 * Millisecond) ([TickerC example_send] @ TickerC ?se # [TickerC example_send])
      example_world)) =
      sent (snd (startLoopSendHTTPURequest example_lib example_req (1000 * Millisecond)
        [TickerC example_send] example_world)) @
      [(spec_wire_format (spec_method example_req) (RequestURI example_req) hdr,
        UDPAddr [239, 255, 255, 250] 1900)]"
    by (rule conjunct2 [THEN conjunct2, THEN conjunct1])
  then have c3: "length (sent (snd (startLoopSendHTTPURequest example_lib example_req
      (1000 * Millisecond) ([TickerC example_send] @ TickerC ?se # [TickerC example_send])
      example_world))) = 2"
    using s1 by simp
  from ends have c4: "fst (DoWithContext example_lib example_req (1000 * Millisecond)
      \<lparr>selects = [TickerC example_send] @ TickerC ?se # [TickerC example_send],
       reads = [([], Some io_timeout)], sender_first = False\<rparr> example_world) =
      Returned (Some (ShortWrite 20 37))"
    by (rule conjunct2 [THEN conjunct2, THEN conjunct2])
  have lt: "(20::nat) < 37" by simp
  from h [unfolded hdr_def] r wr lt i b c1 c2 c3 col c4 show ?thesis
    by (intro conjI)
qed

text \<open>
  A short write on the first tick while the socket has only a datagram that does not
  parse for the collector: the transmitter has returned the short-write error, the
  collector is waiting in its next read, and the operation has not returned.
\<close>

theorem short_write_operation_still_blocked:
  "fst (sendHTTPURequest example_lib example_req (example_send\<lparr>write_result := (20, None)\<rparr>)
          example_world) = Some (ShortWrite 20 37)
   \<and> fst (startLoopSendHTTPURequest example_lib example_req (1000 * Millisecond)
          [TickerC (example_send\<lparr>write_result := (20, None)\<rparr>)] example_world) =
       Returned (Some (ShortWrite 20 37))
   \<and> fst (startReceiveResponse example_lib example_req [(''noise'', None)] example_world) =
       Blocked
   \<and> fst (DoWithContext example_lib example_req (1000 * Millisecond)
          \<lparr>selects = [TickerC (example_send\<lparr>write_result := (20, None)\<rparr>)],
           reads = [(''noise'', None)], sender_first = True\<rparr> example_world) = Blocked"
  by (simp add: DoWithContext_def startLoopSendHTTPURequest_def Millisecond_def
      sendHTTPURequest_def Let_def example_defs CRLF_def conn_ReadFrom_def Group_Wait_def
      Group_Go_def Group_done_def)

subsection \<open>The operation\<close>

text \<open>
  Claim C3. \<^verbatim>\<open>DoWithContext\<close> starts the transmitter and the collector on the same client
  and waits for both. When both have returned, it returns the first non-nil error in the
  order in which they finished (nil when there is none). It returns only when both have
  returned: as long as one of them is still running, no result (and no error) comes out
  of it.
\<close>

theorem DoWithContext_waits_then_first_error:
  "(fst (startLoopSendHTTPURequest L req interval (selects env) w) = Returned a \<and>
    fst (startReceiveResponse L req (reads env)
      (snd (startLoopSendHTTPURequest L req interval (selects env) w))) = Returned b
    \<longrightarrow> fst (DoWithContext L req interval env w) =
          Returned (if sender_first env then first_non_nil a b else first_non_nil b a))
   \<and> (fst (DoWithContext L req interval env w) = Returned x
    \<longrightarrow> (\<exists>a' b'. fst (startLoopSendHTTPURequest L req interval (selects env) w) = Returned a' \<and>
          fst (startReceiveResponse L req (reads env)
            (snd (startLoopSendHTTPURequest L req interval (selects env) w))) = Returned b'))"
proof (intro conjI impI)
  assume both: "fst (startLoopSendHTTPURequest L req interval (selects env) w) = Returned a \<and>
    fst (startReceiveResponse L req (reads env)
      (snd (startLoopSendHTTPURequest L req interval (selects env) w))) = Returned b"
  then show "fst (DoWithContext L req interval env w) =
      Returned (if sender_first env then first_non_nil a b else first_non_nil b a)"
    by (simp add: DoWithContext_both_Returned)
next
  assume "fst (DoWithContext L req interval env w) = Returned x"
  then show "\<exists>a' b'. fst (startLoopSendHTTPURequest L req interval (selects env) w) = Returned a' \<and>
          fst (startReceiveResponse L req (reads env)
            (snd (startLoopSendHTTPURequest L req interval (selects env) w))) = Returned b'"
    by (rule DoWithContext_Returned_only_if)
qed

theorem DoWithContext_waits_then_first_error_witness:
  "fst (startLoopSendHTTPURequest example_lib (example_req\<lparr>Host := ''nowhere''\<rparr>)
          (1000 * Millisecond) [TickerC example_send] example_world) =
     Returned (Some (OtherError ''missing port in address''))
   \<and> fst (startReceiveResponse example_lib (example_req\<lparr>Host := ''nowhere''\<rparr>)
          [([], Some (OtherError ''closed''))] example_world) =
     Returned (Some (OtherError ''closed''))
   \<and> fst (DoWithContext example_lib (example_req\<lparr>Host := ''nowhere''\<rparr>) (1000 * Millisecond)
          \<lparr>selects = [TickerC example_send], reads = [([], Some (OtherError ''closed''))],
           sender_first = False\<rparr> example_world) =
     Returned (Some (OtherError ''closed''))"
proof -
  let ?req = "example_req\<lparr>Host := ''nowhere''\<rparr>"
  let ?env = "\<lparr>selects = [TickerC example_send], reads = [([], Some (OtherError ''closed''))],
               sender_first = False\<rparr>"
  have s: "startLoopSendHTTPURequest example_lib ?req (1000 * Millisecond) (selects ?env)
             example_world = (Returned (Some (OtherError ''missing port in address'')), example_world)"
    by (simp add: startLoopSendHTTPURequest_def Millisecond_def sendHTTPURequest_def Let_def
        example_defs)
  have r: "startReceiveResponse example_lib ?req (reads ?env) example_world =
             (Returned (Some (OtherError ''closed'')), example_world)"
    by (simp add: conn_ReadFrom_def)
  have "fst (DoWithContext example_lib ?req (1000 * Millisecond) ?env example_world) =
          Returned (first_non_nil (Some (OtherError ''closed''))
                      (Some (OtherError ''missing port in address'')))"
    using s r DoWithContext_waits_then_first_error [of example_lib ?req "1000 * Millisecond" ?env
        example_world "Some (OtherError ''missing port in address'')"
        "Some (OtherError ''closed'')" "Some (OtherError ''closed'')"]
    by simp
  then show ?thesis using s r by (simp add: first_non_nil_def)
qed

subsection \<open>Do\<close>

text \<open>
  Claim C10, as the code has it. For every request, interval and environment,
  \<^verbatim>\<open>Do\<close> gives what \<^verbatim>\<open>DoWithContext\<close> gives: the same outcome and the same effects on the
  socket, the output queue, the log and the sleeps. With a request whose context is
  never done (no select takes the done case), \<^verbatim>\<open>Do\<close> never returns nil: if it returns,
  it returns a non-nil error, and some send attempt of its transmitter has failed.
\<close>

theorem Do_is_DoWithContext:
  "Do L req interval env w = DoWithContext L req interval env w
   \<and> (\<not> has_CtxDone (selects env) \<and> fst (Do L req interval env w) = Returned x
      \<longrightarrow> x \<noteq> None \<and>
          (\<exists>se w'. TickerC se \<in> set (selects env) \<and> fst (sendHTTPURequest L req se w') \<noteq> None))"
proof (intro conjI impI)
  show "Do L req interval env w = DoWithContext L req interval env w"
    by (simp add: Do_def)
next
  assume h: "\<not> has_CtxDone (selects env) \<and> fst (Do L req interval env w) = Returned x"
  then have ret: "fst (DoWithContext L req interval env w) = Returned x"
    by (simp add: Do_def)
  from DoWithContext_Returned_only_if [OF ret] obtain a b where
    a: "fst (startLoopSendHTTPURequest L req interval (selects env) w) = Returned a" and
    b: "fst (startReceiveResponse L req (reads env)
              (snd (startLoopSendHTTPURequest L req interval (selects env) w))) = Returned b"
    by blast
  from a have loop: "fst (transmit_loop L req (selects env) w) = Returned a"
    by (simp add: startLoopSendHTTPURequest_def split: if_splits)
  from h have nc: "\<not> has_CtxDone (selects env)" by simp
  from transmit_loop_no_CtxDone [OF nc loop] have
    an: "a \<noteq> None" and
    ex: "\<exists>se w'. TickerC se \<in> set (selects env) \<and> fst (sendHTTPURequest L req se w') \<noteq> None"
    by blast+
  from DoWithContext_both_Returned [OF a b] ret an show "x \<noteq> None"
    by (cases a; cases b) (auto simp: first_non_nil_def split: if_splits)
  from ex show "\<exists>se w'. TickerC se \<in> set (selects env) \<and>
      fst (sendHTTPURequest L req se w') \<noteq> None" .
qed

theorem Do_is_DoWithContext_witness:
  "\<not> has_CtxDone [TickerC example_send, TickerC example_send]
   \<and> fst (Do example_lib (example_req\<lparr>Host := ''nowhere''\<rparr>) (1000 * Millisecond)
          \<lparr>selects = [TickerC example_send, TickerC example_send],
           reads = [([], Some io_timeout)], sender_first = True\<rparr> example_world) =
       Returned (Some (OtherError ''missing port in address''))
   \<and> Do example_lib (example_req\<lparr>Host := ''nowhere''\<rparr>) (1000 * Millisecond)
          \<lparr>selects = [TickerC example_send, TickerC example_send],
           reads = [([], Some io_timeout)], sender_first = True\<rparr> example_world =
       DoWithContext example_lib (example_req\<lparr>Host := ''nowhere''\<rparr>) (1000 * Millisecond)
          \<lparr>selects = [TickerC example_send, TickerC example_send],
           reads = [([], Some io_timeout)], sender_first = True\<rparr> example_world
   \<and> Some (OtherError ''missing port in address'') \<noteq> None
   \<and> (\<exists>se w'. TickerC se \<in> set [TickerC example_send, TickerC example_send] \<and>
         fst (sendHTTPURequest example_lib (example_req\<lparr>Host := ''nowhere''\<rparr>) se w') \<noteq> None)"
proof -
  let ?req = "example_req\<lparr>Host := ''nowhere''\<rparr>"
  let ?env = "\<lparr>selects = [TickerC example_send, TickerC example_send],
               reads = [([], Some io_timeout)], sender_first = True\<rparr>"
  have nc: "\<not> has_CtxDone (selects ?env)" by simp
  have ret: "fst (Do example_lib ?req (1000 * Millisecond) ?env example_world) =
               Returned (Some (OtherError ''missing port in address''))"
    by (simp add: Do_def DoWithContext_def startLoopSendHTTPURequest_def Millisecond_def
        sendHTTPURequest_def Let_def example_defs conn_ReadFrom_def Group_Wait_def Group_Go_def
        Group_done_def)
  from Do_is_DoWithContext [of example_lib ?req "1000 * Millisecond" ?env example_world
      "Some (OtherError ''missing port in address'')"] nc ret
  show ?thesis by simp
qed

text \<open>
  A request without deadline or cancellation whose host does not resolve, on a socket
  whose read fails: the first send fails, the read loop ends, and \<^verbatim>\<open>Do\<close> returns.
\<close>

theorem Do_returns_without_cancellation:
  "\<not> has_CtxDone [TickerC example_send]
   \<and> fst (Do example_lib (example_req\<lparr>Host := ''nowhere''\<rparr>) (1000 * Millisecond)
          \<lparr>selects = [TickerC example_send],
           reads = [([], Some (NetError False False ''use of closed network connection''))],
           sender_first = True\<rparr> example_world) =
       Returned (Some (OtherError ''missing port in address''))"
  by (simp add: Do_def DoWithContext_def startLoopSendHTTPURequest_def Millisecond_def
      sendHTTPURequest_def Let_def example_defs conn_ReadFrom_def Group_Wait_def Group_Go_def
      Group_done_def)


subsection \<open>Cancellation seen by the transmitter\<close>

lemma transmit_loop_not_Panicked:
  "fst (transmit_loop L req evs w) \<noteq> Panicked m"
proof (induction evs arbitrary: w)
  case Nil
  show ?case by simp
next
  case (Cons ev evs)
  show ?case
  proof (cases ev)
    case (TickerC se)
    then show ?thesis using Cons.IH
      by (cases "sendHTTPURequest L req se w") (auto split: option.splits)
  next
    case (CtxDone c)
    then show ?thesis by simp
  qed
qed

text \<open>
  Without cancellation and without a failing send the loop does not end: after any
  number of ticks it is waiting for the next one.
\<close>

lemma transmit_loop_keeps_running:
  assumes "\<not> has_CtxDone evs"
    and "\<And>se w'. TickerC se \<in> set evs \<Longrightarrow> fst (sendHTTPURequest L req se w') = None"
  shows "fst (transmit_loop L req evs w) = Blocked"
proof (cases "fst (transmit_loop L req evs w)")
  case (Returned x)
  from transmit_loop_no_CtxDone [OF assms(1) Returned] obtain se w' where
    "TickerC se \<in> set evs" and "fst (sendHTTPURequest L req se w') \<noteq> None"
    by blast
  with assms(2) [of se w'] show ?thesis by simp
next
  case Blocked
  then show ?thesis .
next
  case (Panicked m)
  then show ?thesis using transmit_loop_not_Panicked [of L req evs w m] by simp
qed

text \<open>
  Claim C1. The request's deadline passes while the transmitter waits for its second
  tick; the collector's read then times out. The transmitter returns the context's
  error, \<^verbatim>\<open>context.DeadlineExceeded\<close>, and so does the operation: not nil.
\<close>

theorem transmitter_returns_context_error:
  "fst (startLoopSendHTTPURequest example_lib example_req (1000 * Millisecond)
          [TickerC example_send, CtxDone CtxDeadline] example_world) =
     Returned (Some DeadlineExceeded)
   \<and> fst (DoWithContext example_lib example_req (1000 * Millisecond)
          \<lparr>selects = [TickerC example_send, CtxDone CtxDeadline],
           reads = [([], Some io_timeout)], sender_first = True\<rparr> example_world) =
     Returned (Some DeadlineExceeded)"
  by (simp add: DoWithContext_def startLoopSendHTTPURequest_def Millisecond_def
      sendHTTPURequest_def Let_def example_defs CRLF_def conn_ReadFrom_def Group_Wait_def
      Group_Go_def Group_done_def)

subsection \<open>What the collector does with a parsed response\<close>

lemma startReceiveResponse_delivers_nothing:
  "delivered (snd (startReceiveResponse L req evs w)) = delivered w"
  by (simp add: delivered_def startReceiveResponse_receiver)

lemma DoWithContext_delivers_nothing:
  "delivered (snd (DoWithContext L req interval env w)) = delivered w"
proof -
  have send: "receiver (httpu (snd (sendHTTPURequest L req se v))) = receiver (httpu v)"
    for se v
    by (simp add: sendHTTPURequest_def Let_def upd_conn_def
        split: sum.splits prod.splits option.splits)
  have loop: "receiver (httpu (snd (transmit_loop L req evs v))) = receiver (httpu v)"
    for evs v
  proof (induction evs arbitrary: v)
    case Nil
    show ?case by simp
  next
    case (Cons ev evs)
    show ?case
    proof (cases ev)
      case (TickerC se)
      then show ?thesis using Cons.IH [of "snd (sendHTTPURequest L req se v)"] send [of se v]
        by (cases "sendHTTPURequest L req se v") (auto split: option.splits)
    next
      case (CtxDone c)
      then show ?thesis by simp
    qed
  qed
  obtain s w1 where s: "startLoopSendHTTPURequest L req interval (selects env) w = (s, w1)"
    by (cases "startLoopSendHTTPURequest L req interval (selects env) w")
  obtain r w2 where r: "startReceiveResponse L req (reads env) w1 = (r, w2)"
    by (cases "startReceiveResponse L req (reads env) w1")
  have "receiver (httpu w1) = receiver (httpu w)"
    using s loop [of "selects env" w]
    by (simp add: startLoopSendHTTPURequest_def split: if_splits)
  moreover have "receiver (httpu w2) = receiver (httpu w1)"
    using startReceiveResponse_receiver [of L req "reads env" w1] r by simp
  ultimately show ?thesis
    by (simp add: DoWithContext_def delivered_def s r)
qed

text \<open>
  Claim C2. The socket gives one datagram that parses as a response, then the read
  times out. The collector returns nil and leaves the world as it was: the client's
  output queue, empty before, is empty after. The parsed response, with the header
  added to it, is not sent into the queue.
\<close>

theorem collector_delivers_nothing:
  "ReadResponse example_lib (take 2048 ''HTTP/1.1 200 OK'') example_req =
     Inr \<lparr>StatusCode = 200, RespHeader = Map.empty, Body = []\<rparr>
   \<and> delivered example_world = Chan False []
   \<and> startReceiveResponse example_lib example_req
        [(''HTTP/1.1 200 OK'', None), ([], Some io_timeout)] example_world =
      (Returned None, example_world)
   \<and> delivered (snd (startReceiveResponse example_lib example_req
        [(''HTTP/1.1 200 OK'', None), ([], Some io_timeout)] example_world)) = Chan False []"
  by (simp add: example_defs conn_ReadFrom_def delivered_def)

subsection \<open>Close\<close>

lemma Close_after_NewHTTPUClient:
  assumes "NewHTTPUClient L = Inr h" and "\<not> conn_closed (conn h)"
  shows "Close h =
           (Returned None, h\<lparr>receiver := Chan True [], conn := (conn h)\<lparr>conn_closed := True\<rparr>\<rparr>)"
  using assms
  by (auto simp: NewHTTPUClient_def Close_def conn_Close_def split: sum.splits)

lemma Close_after_NewHTTPUClientAddr:
  assumes "NewHTTPUClientAddr L addr = Inr h"
  shows "Close h = (Panicked ''close of nil channel'', h)"
  using assms
  by (auto simp: NewHTTPUClientAddr_def Close_def split: sum.splits option.splits)

text \<open>
  Claim C8. The client that \<^verbatim>\<open>NewHTTPUClientAddr\<close> returns for the address 192.168.1.10
  has the nil channel as its output queue; \<^verbatim>\<open>Close\<close> on it panics at \<^verbatim>\<open>close(httpu.receiver)\<close>
  and leaves the socket open. On the client that \<^verbatim>\<open>NewHTTPUClient\<close> returns, \<^verbatim>\<open>Close\<close>
  closes the queue and the socket and returns nil.
\<close>

theorem Close_panics_after_NewHTTPUClientAddr:
  "NewHTTPUClientAddr example_lib ''192.168.1.10'' =
     Inr \<lparr>connLock = False, conn = example_conn, receiver = NilChan\<rparr>
   \<and> Close \<lparr>connLock = False, conn = example_conn, receiver = NilChan\<rparr> =
       (Panicked ''close of nil channel'',
        \<lparr>connLock = False, conn = example_conn, receiver = NilChan\<rparr>)
   \<and> NewHTTPUClient example_lib =
       Inr \<lparr>connLock = False, conn = example_conn, receiver = Chan False []\<rparr>
   \<and> Close \<lparr>connLock = False, conn = example_conn, receiver = Chan False []\<rparr> =
       (Returned None,
        \<lparr>connLock = False, conn = example_conn\<lparr>conn_closed := True\<rparr>,
         receiver = Chan True []\<rparr>)"
  by (simp add: NewHTTPUClientAddr_def NewHTTPUClient_def Close_def conn_Close_def example_defs)


end
